theory Spec2Isabelle
  imports Complex_Main
begin

section \<open>Route progress simulator of \<open>LocationTrack.tsx\<close>\<close>

text \<open>
  A JavaScript number is an IEEE 754 double. Numbers are modelled as reals, and the
  arithmetic of the route geometry (segment resolution and interpolation) is rounded
  as the source's is: every numeric literal and every \<open>+\<close>, \<open>-\<close>, \<open>*\<close>, \<open>/\<close> gives
  \<open>fl\<close> of the exact result, the nearest double. \<open>Math.floor\<close> is \<open>floor\<close>, array
  lengths and indices are integers, and both are exact. Progress is stepped in exact
  arithmetic (\<open>advance\<close> adds \<open>1 / 1000\<close>).
  \<open>Date.now()\<close> is an integer number of milliseconds supplied by the environment.
  The route is a parameter \<open>rp\<close> of every function that reads it; the constant
  \<open>routePoints\<close> is the route the component ships with.
\<close>

subsection \<open>Data\<close>

record point =
  lat :: real
  lng :: real

record Location = point +
  timestamp :: int
  accuracy :: "real option"
  speed :: "real option"
  heading :: "real option"

subsection \<open>Double arithmetic\<close>

text \<open>
  Rounding to the nearest integer, ties to the even one, and rounding of a real to the
  nearest number with a 53-bit significand, ties to even: the default rounding of
  IEEE 754 binary64. The exponent is not bounded, so overflow and subnormal results are
  outside the model; coordinates in degrees and progress values in \<open>[0, 1]\<close> stay
  far from both.
\<close>

definition roundEven :: "real \<Rightarrow> int" where
  "roundEven y =
    (let f = \<lfloor>y\<rfloor>; d = y - of_int f
     in if d < 1 / 2 then f else if d > 1 / 2 then f + 1 else if even f then f else f + 1)"

definition fl :: "real \<Rightarrow> real" where
  "fl x =
    (if x = 0 then 0
     else
       let e = \<lfloor>log 2 \<bar>x\<bar>\<rfloor>;
           ulp = 2 powr real_of_int (e - 52)
       in real_of_int (roundEven (x / ulp)) * ulp)"

text \<open>A route as the program can hold it: every coordinate is a double.\<close>

definition doubles :: "point list \<Rightarrow> bool" where
  "doubles rp = list_all (\<lambda>q. fl (lat q) = lat q \<and> fl (lng q) = lng q) rp"

text \<open>The route of the component; a literal denotes the double nearest to it.\<close>

definition routePoints :: "point list" where
  "routePoints =
    [\<lparr>lat = fl (184386 / 10000), lng = fl (791288 / 10000)\<rparr>,
     \<lparr>lat = fl (183500 / 10000), lng = fl (790500 / 10000)\<rparr>,
     \<lparr>lat = fl (181500 / 10000), lng = fl (789500 / 10000)\<rparr>,
     \<lparr>lat = fl (180000 / 10000), lng = fl (788500 / 10000)\<rparr>,
     \<lparr>lat = fl (177500 / 10000), lng = fl (787000 / 10000)\<rparr>,
     \<lparr>lat = fl (175500 / 10000), lng = fl (786000 / 10000)\<rparr>,
     \<lparr>lat = fl (174500 / 10000), lng = fl (785500 / 10000)\<rparr>,
     \<lparr>lat = fl (173850 / 10000), lng = fl (784867 / 10000)\<rparr>]"

subsection \<open>Pure helpers\<close>

text \<open>
  \<open>calculateHeading\<close>: the bearing comes from the mapping library
  (\<open>google.maps.geometry.spherical.computeHeading\<close>), which is not part of the
  repository. It is the parameter \<open>google\<close>: \<open>None\<close> when \<open>window.google\<close> is absent,
  otherwise the library's heading function.
\<close>

definition calculateHeading ::
  "(point \<Rightarrow> point \<Rightarrow> real) option \<Rightarrow> point \<Rightarrow> point \<Rightarrow> real" where
  "calculateHeading google start end' =
    (case google of
       None \<Rightarrow> 0
     | Some computeHeading \<Rightarrow>
         computeHeading \<lparr>lat = lat start, lng = lng start\<rparr> \<lparr>lat = lat end', lng = lng end'\<rparr>)"

definition interpolatePoints :: "point \<Rightarrow> point \<Rightarrow> real \<Rightarrow> point" where
  "interpolatePoints p1 p2 t =
    \<lparr>lat = fl (lat p1 + fl (fl (lat p2 - lat p1) * t)),
     lng = fl (lng p1 + fl (fl (lng p2 - lng p1) * t))\<rparr>"

definition findCurrentSegment :: "point list \<Rightarrow> real \<Rightarrow> int" where
  "findCurrentSegment rp progress =
    (if progress \<ge> 1 then int (length rp) - 2
     else
       let totalSegments = int (length rp) - 1;
           progressPerSegment = fl (1 / real_of_int totalSegments);
           currentSegment = \<lfloor>fl (progress / progressPerSegment)\<rfloor>
       in min currentSegment (totalSegments - 1))"

text \<open>
  The local parameter \<open>segmentProgress\<close> computed in the effect that updates the target
  location. The source applies no clamp to it.
\<close>

definition segmentProgress :: "point list \<Rightarrow> real \<Rightarrow> real" where
  "segmentProgress rp progress =
    (let currentSegment = findCurrentSegment rp progress;
         totalSegments = int (length rp) - 1;
         progressPerSegment = fl (1 / real_of_int totalSegments)
     in fl (fl (progress - fl (real_of_int currentSegment * progressPerSegment))
            / progressPerSegment))"

text \<open>
  Reading \<open>routePoints[i]\<close>: out of range the read yields \<open>undefined\<close>, and the
  property access that follows (\<open>p1.lat\<close>) throws a TypeError. \<open>None\<close> stands for that.
\<close>

definition elemAt :: "'a list \<Rightarrow> int \<Rightarrow> 'a option" where
  "elemAt xs i = (if 0 \<le> i \<and> i < int (length xs) then Some (xs ! nat i) else None)"

text \<open>
  The body of the effect "update target location based on progress", after its guard:
  the sample it builds from the rendered progress, or \<open>None\<close> when a waypoint read
  throws.
\<close>

definition newLocation ::
  "point list \<Rightarrow> (point \<Rightarrow> point \<Rightarrow> real) option \<Rightarrow> int \<Rightarrow> real \<Rightarrow> Location option" where
  "newLocation rp google now progress =
    (let currentSegment = findCurrentSegment rp progress in
     case elemAt rp currentSegment of
       None \<Rightarrow> None
     | Some p1 \<Rightarrow>
        (case elemAt rp (currentSegment + 1) of
           None \<Rightarrow> None
         | Some p2 \<Rightarrow>
            (let newPos = interpolatePoints p1 p2 (segmentProgress rp progress);
                 heading = calculateHeading google p1 p2
             in Some \<lparr>lat = lat newPos, lng = lng newPos, timestamp = now,
                      accuracy = None, speed = Some 60, heading = Some heading\<rparr>)))"

subsection \<open>Component state\<close>

text \<open>
  The state of the \<open>LocationTracker\<close> component that the simulator reads or writes:
  the React state variables \<open>isConnected\<close>, \<open>progress\<close>, \<open>locationHistory\<close>,
  \<open>targetLocation\<close>, the ref \<open>animationRef\<close>, and the browser's list of pending
  animation-frame callbacks. A pending callback is a handle together with the value of
  \<open>isConnected\<close> that the closure \<open>animateAlongRoute\<close> captured when it was scheduled.
  The map objects, the user location and the error text are not modelled: nothing
  below reads them.
\<close>

record state =
  isConnected :: bool
  progress :: real
  locationHistory :: "Location list"
  targetLocation :: "Location option"
  animationRef :: "nat option"
  frames :: "(nat \<times> bool) list"
  nextHandle :: nat

text \<open>The state after the first render at time \<open>t0\<close>; handles start at 1.\<close>

definition init :: "int \<Rightarrow> state" where
  "init t0 =
    \<lparr>isConnected = False, progress = 0, locationHistory = [],
     targetLocation = Some \<lparr>lat = fl (184386 / 10000), lng = fl (791288 / 10000),
                             timestamp = t0,
                             accuracy = None, speed = None, heading = None\<rparr>,
     animationRef = None, frames = [], nextHandle = 1\<rparr>"

definition requestAnimationFrame :: "bool \<Rightarrow> state \<Rightarrow> nat \<times> state" where
  "requestAnimationFrame closure s =
    (nextHandle s,
     s\<lparr>frames := frames s @ [(nextHandle s, closure)], nextHandle := nextHandle s + 1\<rparr>)"

definition cancelAnimationFrame :: "nat \<Rightarrow> state \<Rightarrow> state" where
  "cancelAnimationFrame h s = s\<lparr>frames := filter (\<lambda>(h', c). h' \<noteq> h) (frames s)\<rparr>"

text \<open>
  \<open>if (animationRef.current) { cancelAnimationFrame(animationRef.current);
  animationRef.current = null; }\<close>, which is both the else-branch and the cleanup of
  the start/stop effect. A handle 0 is falsy.
\<close>

definition stopAnimation :: "state \<Rightarrow> state" where
  "stopAnimation s =
    (case animationRef s of
       None \<Rightarrow> s
     | Some h \<Rightarrow> if h = 0 then s else (cancelAnimationFrame h s)\<lparr>animationRef := None\<rparr>)"

text \<open>The updater passed to \<open>setProgress\<close> by \<open>animateAlongRoute\<close>.\<close>

definition advance :: "real \<Rightarrow> real" where
  "advance prev = (let newProgress = prev + 1 / 1000 in if newProgress > 1 then 1 else newProgress)"

text \<open>\<open>animateAlongRoute\<close>, run as a frame callback whose closure captured the value \<open>captured\<close> of \<open>isConnected\<close>.\<close>

definition animateAlongRoute :: "bool \<Rightarrow> state \<Rightarrow> state" where
  "animateAlongRoute captured s =
    (if \<not> captured then s
     else
       let s1 = s\<lparr>progress := advance (progress s)\<rparr>;
           (h, s2) = requestAnimationFrame captured s1
       in s2\<lparr>animationRef := Some h\<rparr>)"

subsection \<open>Effects\<close>

text \<open>
  An effect runs after a render. It reads the state variables of that render (the
  snapshot \<open>r\<close>) and queues updates; the updates are applied to \<open>s\<close> in the order they
  are queued, and refs are written at once.
\<close>

definition startStopEffect :: "state \<Rightarrow> state \<Rightarrow> state" where
  "startStopEffect r s =
    (if isConnected r then
       let s1 = s\<lparr>progress := 0\<rparr>;
           s2 = s1\<lparr>locationHistory := []\<rparr>;
           (h, s3) = requestAnimationFrame (isConnected r) s2
       in s3\<lparr>animationRef := Some h\<rparr>
     else stopAnimation s)"

definition updateTargetEffect ::
  "point list \<Rightarrow> (point \<Rightarrow> point \<Rightarrow> real) option \<Rightarrow> int \<Rightarrow> state \<Rightarrow> state \<Rightarrow> state option" where
  "updateTargetEffect rp google now r s =
    (if \<not> isConnected r then Some s
     else
       case newLocation rp google now (progress r) of
         None \<Rightarrow> None
       | Some l \<Rightarrow> Some (s\<lparr>targetLocation := Some l, locationHistory := locationHistory s @ [l]\<rparr>))"

text \<open>
  One pass of effects after rendering \<open>cur\<close>, the previous render being \<open>prev\<close>: the
  start/stop effect (dependencies \<open>[isConnected]\<close>) runs its previous cleanup and then
  its body, the update-target effect (dependencies \<open>[progress, isConnected]\<close>) follows,
  in the order of their declaration.
\<close>

definition runEffects ::
  "point list \<Rightarrow> (point \<Rightarrow> point \<Rightarrow> real) option \<Rightarrow> int \<Rightarrow> state \<Rightarrow> state \<Rightarrow> state option" where
  "runEffects rp google now prev cur =
    (let s1 = (if isConnected prev \<noteq> isConnected cur
               then startStopEffect cur (stopAnimation cur) else cur)
     in if progress prev \<noteq> progress cur \<or> isConnected prev \<noteq> isConnected cur
        then updateTargetEffect rp google now cur s1
        else Some s1)"

text \<open>
  Rendering until nothing changes: the updates queued by the effects give the next
  render, whose effects run in turn. \<open>None\<close> is an exception thrown by an effect.
\<close>

function commit ::
  "point list \<Rightarrow> (point \<Rightarrow> point \<Rightarrow> real) option \<Rightarrow> int \<Rightarrow> state \<Rightarrow> state \<Rightarrow> state option" where
  "commit rp google now prev cur =
    (if progress prev = progress cur \<and> isConnected prev = isConnected cur then Some cur
     else
       case runEffects rp google now prev cur of
         None \<Rightarrow> None
       | Some nxt \<Rightarrow> commit rp google now cur nxt)"
  by pat_completeness auto
termination
proof (relation "measure (\<lambda>(rp, google, now, prev, cur).
        if isConnected prev \<noteq> isConnected cur then 2
        else if progress prev \<noteq> progress cur then 1 else 0)")
  show "wf (measure (\<lambda>(rp :: point list, google :: (point \<Rightarrow> point \<Rightarrow> real) option, now :: int,
        prev :: state, cur :: state).
        if isConnected prev \<noteq> isConnected cur then 2
        else if progress prev \<noteq> progress cur then 1 else (0::nat)))"
    by simp
next
  fix rp :: "point list" and google :: "(point \<Rightarrow> point \<Rightarrow> real) option" and now :: int
    and prev cur nxt :: state
  assume changed: "\<not> (progress prev = progress cur \<and> isConnected prev = isConnected cur)"
    and eff: "runEffects rp google now prev cur = Some nxt"
  have c: "isConnected nxt = isConnected cur"
    using eff
    by (auto simp: runEffects_def updateTargetEffect_def startStopEffect_def stopAnimation_def
        cancelAnimationFrame_def requestAnimationFrame_def Let_def
        split: if_splits option.splits)
  have p: "progress nxt = progress cur" if "isConnected prev = isConnected cur"
    using eff that
    by (auto simp: runEffects_def updateTargetEffect_def Let_def split: if_splits option.splits)
  show "((rp, google, now, cur, nxt), (rp, google, now, prev, cur))
      \<in> measure (\<lambda>(rp, google, now, prev, cur).
        if isConnected prev \<noteq> isConnected cur then 2
        else if progress prev \<noteq> progress cur then 1 else 0)"
    using changed c p by auto
qed

declare commit.simps [simp del]

subsection \<open>Events\<close>

text \<open>
  \<open>connectToTracker\<close>, the click handler of the start/stop button. Its call of
  \<open>getUserLocation\<close> writes the user location and the error text only.
\<close>

definition connectToTracker :: "state \<Rightarrow> state" where
  "connectToTracker s =
    (if isConnected s then s\<lparr>isConnected := False\<rparr> else s\<lparr>isConnected := True\<rparr>)"

text \<open>An animation frame: the browser runs the callbacks that were pending.\<close>

definition animationFrame :: "state \<Rightarrow> state" where
  "animationFrame s =
    fold (\<lambda>(h, captured). animateAlongRoute captured) (frames s) (s\<lparr>frames := []\<rparr>)"

text \<open>
  An event carries the value that \<open>Date.now()\<close> returns while it is handled.
  \<open>Click\<close> is a press of the start/stop button, \<open>Frame\<close> an animation frame (a tick).
  Each event is handled to completion: its handler, the render it causes and the
  effects of that render (with the renders they cause in turn) all finish before the
  next event, and they read the same clock value.
\<close>

datatype event = Click int | Frame int

fun step ::
  "point list \<Rightarrow> (point \<Rightarrow> point \<Rightarrow> real) option \<Rightarrow> event \<Rightarrow> state \<Rightarrow> state option" where
  "step rp google (Click now) s = commit rp google now s (connectToTracker s)"
| "step rp google (Frame now) s = commit rp google now s (animationFrame s)"

declare step.simps [simp del]

fun run ::
  "point list \<Rightarrow> (point \<Rightarrow> point \<Rightarrow> real) option \<Rightarrow> event list \<Rightarrow> state \<Rightarrow> state option" where
  "run rp google [] s = Some s"
| "run rp google (e # es) s =
    (case step rp google e s of None \<Rightarrow> None | Some s' \<Rightarrow> run rp google es s')"

text \<open>
  The states the component is in between events: Progress lies in \<open>[0, 1]\<close>; while
  Running exactly one callback is pending, it captured \<open>isConnected = true\<close> and the ref
  holds its handle; while Idle nothing is pending and the ref is null. Handles are
  positive.
\<close>

definition stable :: "state \<Rightarrow> bool" where
  "stable s =
    (0 \<le> progress s \<and> progress s \<le> 1 \<and> 0 < nextHandle s \<and>
     (if isConnected s
      then (case animationRef s of
              None \<Rightarrow> False
            | Some h \<Rightarrow> h \<noteq> 0 \<and> h < nextHandle s \<and> frames s = [(h, True)])
      else animationRef s = None \<and> frames s = []))"

section \<open>Display history of \<open>Dashboard.tsx\<close>\<close>

text \<open>
  The second component of \<open>Dashboard.tsx\<close> keeps the samples it receives over the
  socket. Its \<open>Location\<close> has one more optional field, \<open>deviceId\<close>; its
  \<open>locationHistory\<close> is \<open>locationHistoryD\<close> here. Of its state, the part that the
  handlers writing the history read or write is modelled.
\<close>

record DLocation = Location +
  deviceId :: "string option"

record DeviceInfo =
  id_D :: string
  name :: string
  lastSeen :: int

datatype DeviceMode = tracker | display

record dashboard =
  sessionId :: string
  deviceMode :: DeviceMode
  selectedDevice :: "string option"
  connectedDevices :: "DeviceInfo list"
  currentLocation :: "DLocation option"
  locationHistoryD :: "DLocation list"

definition initD :: "string \<Rightarrow> dashboard" where
  "initD sid =
    \<lparr>sessionId = sid, deviceMode = display, selectedDevice = None, connectedDevices = [],
     currentLocation = None, locationHistoryD = []\<rparr>"

text \<open>\<open>xs.slice(-n)\<close>: the last \<open>n\<close> elements, all of them when there are fewer.\<close>

definition sliceLast :: "nat \<Rightarrow> 'a list \<Rightarrow> 'a list" where
  "sliceLast n xs = drop (length xs - n) xs"

text \<open>\<open>!selectedDevice\<close>: null and the empty string are falsy.\<close>

definition noDevice :: "string option \<Rightarrow> bool" where
  "noDevice d = (case d of None \<Rightarrow> True | Some x \<Rightarrow> x = [])"

text \<open>The handler of the \<open>locationUpdate\<close> message.\<close>

definition locationUpdate :: "DLocation \<Rightarrow> dashboard \<Rightarrow> dashboard" where
  "locationUpdate data' d =
    (if deviceMode d = display \<and> (noDevice (selectedDevice d) \<or> deviceId data' = selectedDevice d)
     then d\<lparr>currentLocation := Some data',
            locationHistoryD := sliceLast 200 (locationHistoryD d) @ [data']\<rparr>
     else d)"

text \<open>The handler of the \<open>devicesList\<close> message.\<close>

definition devicesList :: "DeviceInfo list \<Rightarrow> dashboard \<Rightarrow> dashboard" where
  "devicesList devices d =
    (let d1 = d\<lparr>connectedDevices := filter (\<lambda>x. id_D x \<noteq> sessionId d) devices\<rparr> in
     if deviceMode d = display \<and> noDevice (selectedDevice d)
     then (case find (\<lambda>x. id_D x \<noteq> sessionId d) devices of
             None \<Rightarrow> d1
           | Some firstTracker \<Rightarrow> d1\<lparr>selectedDevice := Some (id_D firstTracker)\<rparr>)
     else d1)"

definition switchMode :: "dashboard \<Rightarrow> dashboard" where
  "switchMode d =
    (let newMode = (if deviceMode d = tracker then display else tracker)
     in d\<lparr>deviceMode := newMode\<rparr>)"

definition handleDeviceSelect :: "string \<Rightarrow> dashboard \<Rightarrow> dashboard" where
  "handleDeviceSelect dev d = d\<lparr>selectedDevice := Some dev, locationHistoryD := []\<rparr>"

datatype eventD =
  LocationUpdate DLocation | DevicesList "DeviceInfo list" | SwitchMode | DeviceSelect string

fun stepD :: "eventD \<Rightarrow> dashboard \<Rightarrow> dashboard" where
  "stepD (LocationUpdate data') d = locationUpdate data' d"
| "stepD (DevicesList devices) d = devicesList devices d"
| "stepD SwitchMode d = switchMode d"
| "stepD (DeviceSelect dev) d = handleDeviceSelect dev d"

definition runD :: "eventD list \<Rightarrow> dashboard \<Rightarrow> dashboard" where
  "runD es d = fold stepD es d"

section \<open>Properties\<close>

subsection \<open>Rounding\<close>

lemma fl_zero [simp]: "fl 0 = 0"
  by (simp add: fl_def)

lemma roundEven_near:
  assumes "\<bar>y - of_int n\<bar> < 1 / 2"
  shows "roundEven y = n"
proof -
  let ?f = "\<lfloor>y\<rfloor>"
  have f: "of_int ?f \<le> y" "y < of_int ?f + 1"
    by linarith+
  have "real_of_int n < real_of_int ?f + 2" and "real_of_int ?f - 1 < real_of_int n"
    using assms f by linarith+
  then have "real_of_int n < real_of_int (?f + 2)" and "real_of_int (?f - 1) < real_of_int n"
    by simp_all
  then have "n < ?f + 2" and "?f - 1 < n"
    by (simp_all only: of_int_less_iff)
  then consider "n = ?f" | "n = ?f + 1"
    by linarith
  then show ?thesis
  proof cases
    case 1
    then have "y - of_int ?f < 1 / 2"
      using assms by simp
    then show ?thesis
      using 1 by (simp add: roundEven_def Let_def)
  next
    case 2
    then have "y - of_int ?f > 1 / 2"
      using assms by simp
    then show ?thesis
      using 2 by (simp add: roundEven_def Let_def)
  qed
qed

lemma roundEven_nonneg: "0 \<le> y \<Longrightarrow> 0 \<le> roundEven y"
  by (auto simp: roundEven_def Let_def)

lemma fl_nonneg: "0 \<le> x \<Longrightarrow> 0 \<le> fl x"
  by (simp add: fl_def Let_def roundEven_nonneg)


lemma fl_round:
  fixes m :: nat
  assumes lo: "2 ^ 52 \<le> \<bar>x\<bar> * 2 ^ m" and hi: "\<bar>x\<bar> * 2 ^ m < 2 ^ 53"
    and r: "roundEven (x * 2 ^ m) = n"
  shows "fl x = of_int n / 2 ^ m"
proof -
  have x: "x \<noteq> 0" using lo by auto
  have p52: "2 powr real_of_int (52 - int m) = 2 ^ 52 / 2 ^ m"
    by (simp add: powr_diff powr_realpow)
  have p53: "2 powr real_of_int (52 - int m + 1) = 2 ^ 53 / 2 ^ m"
    by (simp add: powr_diff powr_add powr_realpow)
  have "2 ^ 52 / 2 ^ m \<le> \<bar>x\<bar>"
    using lo by (simp add: field_simps)
  then have a: "2 powr real_of_int (52 - int m) \<le> \<bar>x\<bar>"
    by (simp only: p52)
  have "\<bar>x\<bar> < 2 ^ 53 / 2 ^ m"
    using hi by (simp add: field_simps)
  then have b: "\<bar>x\<bar> < 2 powr real_of_int (52 - int m + 1)"
    by (simp only: p53)
  have "0 < \<bar>x\<bar>" using x by simp
  then have e: "\<lfloor>log 2 \<bar>x\<bar>\<rfloor> = 52 - int m"
    using a b floor_log_eq_powr_iff [of "\<bar>x\<bar>" 2 "52 - int m"] by simp
  have u: "2 powr real_of_int (52 - int m - 52) = 1 / 2 ^ m"
    by (simp add: powr_minus powr_realpow field_simps)
  have "roundEven (x / (1 / 2 ^ m)) = n"
    using r by simp
  then show ?thesis
    using x by (simp only: fl_def Let_def e u if_False) simp
qed

lemma fl_near:
  fixes m :: nat
  assumes "2 ^ 52 \<le> \<bar>x\<bar> * 2 ^ m" and "\<bar>x\<bar> * 2 ^ m < 2 ^ 53"
    and "\<bar>x * 2 ^ m - of_int n\<bar> < 1 / 2"
  shows "fl x = of_int n / 2 ^ m"
  using assms(1,2) by (rule fl_round) (rule roundEven_near [OF assms(3)])


lemma roundEven_err: "\<bar>real_of_int (roundEven y) - y\<bar> \<le> 1 / 2"
proof -
  have "of_int \<lfloor>y\<rfloor> \<le> y" "y < of_int \<lfloor>y\<rfloor> + 1"
    by linarith+
  then show ?thesis
    by (auto simp: roundEven_def Let_def)
qed

lemma roundEven_of_int: "roundEven (of_int n) = n"
  by (rule roundEven_near) simp

lemma fl_binade:
  assumes lo: "2 powr real_of_int k \<le> \<bar>x\<bar>" and hi: "\<bar>x\<bar> < 2 powr real_of_int (k + 1)"
  shows "fl x = real_of_int (roundEven (x / 2 powr real_of_int (k - 52)))
    * 2 powr real_of_int (k - 52)"
proof -
  have "0 < (2::real) powr real_of_int k" by simp
  then have x: "0 < \<bar>x\<bar>" using lo by linarith
  then have "\<lfloor>log 2 \<bar>x\<bar>\<rfloor> = k"
    using lo hi floor_log_eq_powr_iff [of "\<bar>x\<bar>" 2 k] by simp
  then show ?thesis
    using x by (simp add: fl_def Let_def)
qed

lemma fl_idem: "fl (fl x) = fl x"
proof (cases "x = 0")
  case True
  then show ?thesis by simp
next
  case False
  define k where "k = \<lfloor>log 2 \<bar>x\<bar>\<rfloor>"
  define u where "u = 2 powr real_of_int (k - 52)"
  define n where "n = roundEven (x / u)"
  have u: "0 < u" by (simp add: u_def)
  have x: "0 < \<bar>x\<bar>" using False by simp
  have bin: "2 powr real_of_int k \<le> \<bar>x\<bar>" "\<bar>x\<bar> < 2 powr real_of_int (k + 1)"
    using floor_log_eq_powr_iff [of "\<bar>x\<bar>" 2 k] x by (simp_all add: k_def)
  have flx: "fl x = real_of_int n * u"
    unfolding n_def u_def by (rule fl_binade [OF bin])
  have pk: "2 powr real_of_int k = 2 ^ 52 * u"
    by (simp add: u_def powr_diff)
  have pk1: "2 powr real_of_int (k + 1) = 2 ^ 53 * u"
    by (simp add: u_def powr_diff powr_add)
  have "2 ^ 52 * u \<le> \<bar>x\<bar>" and "\<bar>x\<bar> < 2 ^ 53 * u"
    using bin by (simp_all only: pk pk1)
  moreover have "\<bar>x / u\<bar> = \<bar>x\<bar> / u"
    using u by simp
  ultimately have q: "2 ^ 52 \<le> \<bar>x / u\<bar>" "\<bar>x / u\<bar> < 2 ^ 53"
    using u by (simp_all add: field_simps)
  have err: "\<bar>real_of_int n - x / u\<bar> \<le> 1 / 2"
    unfolding n_def by (rule roundEven_err)
  have "real_of_int \<bar>n\<bar> > 2 ^ 52 - 1" "real_of_int \<bar>n\<bar> < 2 ^ 53 + 1"
    using q err by (simp_all only: of_int_abs)
  then have "real_of_int \<bar>n\<bar> > real_of_int (2 ^ 52 - 1)" "real_of_int \<bar>n\<bar> < real_of_int (2 ^ 53 + 1)"
    by simp_all
  then have nb: "2 ^ 52 \<le> \<bar>n\<bar>" "\<bar>n\<bar> \<le> 2 ^ 53"
    by (simp_all only: of_int_less_iff)
  show ?thesis
  proof (cases "\<bar>n\<bar> < 2 ^ 53")
    case True
    have a: "\<bar>real_of_int n * u\<bar> = real_of_int \<bar>n\<bar> * u"
      using u by (simp add: abs_mult)
    have "real_of_int (2 ^ 52) \<le> real_of_int \<bar>n\<bar>" "real_of_int \<bar>n\<bar> < real_of_int (2 ^ 53)"
      using nb(1) True by (simp_all only: of_int_le_iff of_int_less_iff)
    then have "2 ^ 52 \<le> real_of_int \<bar>n\<bar>" "real_of_int \<bar>n\<bar> < 2 ^ 53"
      by simp_all
    then have b: "2 powr real_of_int k \<le> \<bar>real_of_int n * u\<bar>"
      "\<bar>real_of_int n * u\<bar> < 2 powr real_of_int (k + 1)"
      using u by (simp_all only: a pk pk1) simp_all
    have "fl (real_of_int n * u) = real_of_int (roundEven (real_of_int n * u / u)) * u"
      unfolding u_def by (rule fl_binade [OF b [unfolded u_def]])
    then show ?thesis
      using u by (simp add: flx roundEven_of_int)
  next
    case False
    then have n53: "\<bar>n\<bar> = 2 ^ 53" using nb(2) by simp
    then obtain h where h: "n = 2 * h" "\<bar>h\<bar> = 2 ^ 52"
      by (cases "0 \<le> n") (auto intro: that [of "2 ^ 52"] that [of "- (2 ^ 52)"])
    have a: "\<bar>real_of_int n * u\<bar> = 2 ^ 53 * u"
      using u n53 by (simp add: abs_mult flip: of_int_abs)
    have pk2: "2 powr real_of_int (k + 1 + 1) = 2 ^ 54 * u"
      by (simp add: u_def powr_diff powr_add)
    have b: "2 powr real_of_int (k + 1) \<le> \<bar>real_of_int n * u\<bar>"
      "\<bar>real_of_int n * u\<bar> < 2 powr real_of_int (k + 1 + 1)"
      using u by (simp_all only: a pk1 pk2) simp_all
    have u2: "2 powr real_of_int (k + 1 - 52) = 2 * u"
      by (simp add: u_def powr_diff powr_add)
    have "fl (real_of_int n * u) =
        real_of_int (roundEven (real_of_int n * u / (2 * u))) * (2 * u)"
      using fl_binade [OF b] by (simp only: u2)
    moreover have "real_of_int n * u / (2 * u) = real_of_int h"
      using u h(1) by simp
    ultimately show ?thesis
      using h(1) by (simp add: flx roundEven_of_int)
  qed
qed

text \<open>
  The roundings that the examples below go through, each checked against the
  definition of \<open>fl\<close>.
\<close>

lemma fl_seventh: "fl (1 / 7) = 5146971002709138 / 2 ^ 55"
proof -
  have "fl (1 / 7) = of_int 5146971002709138 / 2 ^ 55"
    by (rule fl_near) simp_all
  then show ?thesis by simp
qed

lemma fl_six_sevenths: "fl (6 * (5146971002709138 / 2 ^ 55)) = 7720456504063707 / 2 ^ 53"
proof -
  have "fl (6 * (5146971002709138 / 2 ^ 55)) = of_int 7720456504063707 / 2 ^ 53"
    by (rule fl_near) simp_all
  then show ?thesis by simp
qed

lemma fl_rest: "fl (1 - 7720456504063707 / 2 ^ 53) = 5146971002709140 / 2 ^ 55"
proof -
  have "fl (1 - 7720456504063707 / 2 ^ 53) = of_int 5146971002709140 / 2 ^ 55"
    by (rule fl_near) simp_all
  then show ?thesis by simp
qed

lemma fl_local_one: "fl ((5146971002709140 / 2 ^ 55) / (5146971002709138 / 2 ^ 55)) = 4503599627370498 / 2 ^ 52"
proof -
  have "fl ((5146971002709140 / 2 ^ 55) / (5146971002709138 / 2 ^ 55)) = of_int 4503599627370498 / 2 ^ 52"
    by (rule fl_near) simp_all
  then show ?thesis by simp
qed

lemma fl_lat0: "fl (184386 / 10000) = 5190004505577102 / 2 ^ 48"
proof -
  have "fl (184386 / 10000) = of_int 5190004505577102 / 2 ^ 48"
    by (rule fl_near) simp_all
  then show ?thesis by simp
qed

lemma fl_lng0: "fl (791288 / 10000) = 5568194284285539 / 2 ^ 46"
proof -
  have "fl (791288 / 10000) = of_int 5568194284285539 / 2 ^ 46"
    by (rule fl_near) simp_all
  then show ?thesis by simp
qed

lemma fl_lat6: "fl (174500 / 10000) = 4911738343600947 / 2 ^ 48"
proof -
  have "fl (174500 / 10000) = of_int 4911738343600947 / 2 ^ 48"
    by (rule fl_near) simp_all
  then show ?thesis by simp
qed

lemma fl_lng6: "fl (785500 / 10000) = 5527464855155507 / 2 ^ 46"
proof -
  have "fl (785500 / 10000) = of_int 5527464855155507 / 2 ^ 46"
    by (rule fl_near) simp_all
  then show ?thesis by simp
qed

lemma fl_lat7: "fl (173850 / 10000) = 4893442470114755 / 2 ^ 48"
proof -
  have "fl (173850 / 10000) = of_int 4893442470114755 / 2 ^ 48"
    by (rule fl_near) simp_all
  then show ?thesis by simp
qed

lemma fl_lng7: "fl (784867 / 10000) = 5523010513649061 / 2 ^ 46"
proof -
  have "fl (784867 / 10000) = of_int 5523010513649061 / 2 ^ 46"
    by (rule fl_near) simp_all
  then show ?thesis by simp
qed

lemma fl_lat_diff: "fl (4893442470114755 / 2 ^ 48 - 4911738343600947 / 2 ^ 48) = - (4683743612465152 / 2 ^ 56)"
proof -
  have "fl (4893442470114755 / 2 ^ 48 - 4911738343600947 / 2 ^ 48) = of_int (- 4683743612465152) / 2 ^ 56"
    by (rule fl_near) simp_all
  then show ?thesis by simp
qed

lemma fl_lat_scaled: "fl (- (4683743612465152 / 2 ^ 56) * (4503599627370498 / 2 ^ 52)) = - (4683743612465154 / 2 ^ 56)"
proof -
  have "fl (- (4683743612465152 / 2 ^ 56) * (4503599627370498 / 2 ^ 52)) = of_int (- 4683743612465154) / 2 ^ 56"
    by (rule fl_near) simp_all
  then show ?thesis by simp
qed

lemma fl_lat_end: "fl (4911738343600947 / 2 ^ 48 + - (4683743612465154 / 2 ^ 56)) = 4893442470114755 / 2 ^ 48"
proof -
  have "fl (4911738343600947 / 2 ^ 48 + - (4683743612465154 / 2 ^ 56)) = of_int 4893442470114755 / 2 ^ 48"
    by (rule fl_near) simp_all
  then show ?thesis by simp
qed

lemma fl_lng_diff: "fl (5523010513649061 / 2 ^ 46 - 5527464855155507 / 2 ^ 46) = - (4561245702600704 / 2 ^ 56)"
proof -
  have "fl (5523010513649061 / 2 ^ 46 - 5527464855155507 / 2 ^ 46) = of_int (- 4561245702600704) / 2 ^ 56"
    by (rule fl_near) simp_all
  then show ?thesis by simp
qed

lemma fl_lng_scaled: "fl (- (4561245702600704 / 2 ^ 56) * (4503599627370498 / 2 ^ 52)) = - (4561245702600706 / 2 ^ 56)"
proof -
  have "fl (- (4561245702600704 / 2 ^ 56) * (4503599627370498 / 2 ^ 52)) = of_int (- 4561245702600706) / 2 ^ 56"
    by (rule fl_near) simp_all
  then show ?thesis by simp
qed

lemma fl_lng_end: "fl (5527464855155507 / 2 ^ 46 + - (4561245702600706 / 2 ^ 56)) = 5523010513649061 / 2 ^ 46"
proof -
  have "fl (5527464855155507 / 2 ^ 46 + - (4561245702600706 / 2 ^ 56)) = of_int 5523010513649061 / 2 ^ 46"
    by (rule fl_near) simp_all
  then show ?thesis by simp
qed

lemma fl_west: "fl (- (1276 / 10000)) = - (4597274499619802 / 2 ^ 55)"
proof -
  have "fl (- (1276 / 10000)) = of_int (- 4597274499619802) / 2 ^ 55"
    by (rule fl_near) simp_all
  then show ?thesis by simp
qed

lemma fl_east: "fl (5 / 10000) = 4611686018427388 / 2 ^ 63"
proof -
  have "fl (5 / 10000) = of_int 4611686018427388 / 2 ^ 63"
    by (rule fl_near) simp_all
  then show ?thesis by simp
qed

lemma fl_cx_diff: "fl (4611686018427388 / 2 ^ 63 - - (4597274499619802 / 2 ^ 55)) = 4615288898129284 / 2 ^ 55"
proof -
  have "fl (4611686018427388 / 2 ^ 63 - - (4597274499619802 / 2 ^ 55)) = of_int 4615288898129284 / 2 ^ 55"
    by (rule fl_near) simp_all
  then show ?thesis by simp
qed

lemma fl_cx_scaled: "fl ((4615288898129284 / 2 ^ 55) * 1) = 4615288898129284 / 2 ^ 55"
proof -
  have "fl ((4615288898129284 / 2 ^ 55) * 1) = of_int 4615288898129284 / 2 ^ 55"
    by (rule fl_near) simp_all
  then show ?thesis by simp
qed

lemma fl_cx_end: "fl (- (4597274499619802 / 2 ^ 55) + 4615288898129284 / 2 ^ 55) = 4611686018427392 / 2 ^ 63"
proof -
  have "fl (- (4597274499619802 / 2 ^ 55) + 4615288898129284 / 2 ^ 55) = of_int 4611686018427392 / 2 ^ 63"
    by (rule fl_near) simp_all
  then show ?thesis by simp
qed

lemma fl_one: "fl (1) = 1"
proof -
  have "fl (1) = of_int 4503599627370496 / 2 ^ 52"
    by (rule fl_near) simp_all
  then show ?thesis by simp
qed

lemma fl_lat_cx: "fl (515 / 10) = 7247980650299392 / 2 ^ 47"
proof -
  have "fl (515 / 10) = of_int 7247980650299392 / 2 ^ 47"
    by (rule fl_near) simp_all
  then show ?thesis by simp
qed






subsection \<open>Segment resolution\<close>

lemma findCurrentSegment_bounds:
  assumes "2 \<le> length rp" and "0 \<le> p"
  shows "0 \<le> findCurrentSegment rp p" and "findCurrentSegment rp p \<le> int (length rp) - 2"
proof -
  have "0 \<le> fl (1 / real_of_int (int (length rp) - 1))"
    using assms by (intro fl_nonneg) simp
  then have "0 \<le> p / fl (1 / real_of_int (int (length rp) - 1))"
    using assms by simp
  then have "0 \<le> fl (p / fl (1 / real_of_int (int (length rp) - 1)))"
    by (rule fl_nonneg)
  then show "0 \<le> findCurrentSegment rp p"
    using assms by (simp add: findCurrentSegment_def Let_def)
  show "findCurrentSegment rp p \<le> int (length rp) - 2"
    by (simp add: findCurrentSegment_def Let_def)
qed

lemma findCurrentSegment_zero: "2 \<le> length rp \<Longrightarrow> findCurrentSegment rp 0 = 0"
  by (simp add: findCurrentSegment_def)

lemma findCurrentSegment_one: "findCurrentSegment rp 1 = int (length rp) - 2"
  by (simp add: findCurrentSegment_def)

lemma findCurrentSegment_two_points:
  assumes "length rp = 2" and "0 \<le> p"
  shows "findCurrentSegment rp p = 0"
proof -
  have "0 \<le> findCurrentSegment rp p" and "findCurrentSegment rp p \<le> int (length rp) - 2"
    using findCurrentSegment_bounds [of rp p] assms by simp_all
  then show ?thesis using assms by simp
qed

lemma segmentProgress_zero: "2 \<le> length rp \<Longrightarrow> segmentProgress rp 0 = 0"
  by (simp add: segmentProgress_def findCurrentSegment_zero)

lemma segmentProgress_two_points_one: "length rp = 2 \<Longrightarrow> segmentProgress rp 1 = 1"
  by (simp add: segmentProgress_def findCurrentSegment_one fl_one)

lemma length_routePoints: "length routePoints = 8"
  by (simp add: routePoints_def)

lemma doubles_routePoints: "doubles routePoints"
  by (simp add: doubles_def routePoints_def fl_idem)

lemma segmentProgress_shipped_one: "segmentProgress routePoints 1 = 4503599627370498 / 2 ^ 52"
proof -
  have "segmentProgress routePoints 1 = fl (fl (1 - fl (6 * fl (1 / 7))) / fl (1 / 7))"
    by (simp add: segmentProgress_def findCurrentSegment_one length_routePoints Let_def)
  also have "\<dots> = 4503599627370498 / 2 ^ 52"
    by (simp only: fl_seventh fl_six_sevenths fl_rest fl_local_one)
  finally show ?thesis .
qed


lemma elemAt_Some:
  "0 \<le> i \<Longrightarrow> i < int (length xs) \<Longrightarrow> elemAt xs i = Some (xs ! nat i)"
  by (simp add: elemAt_def)

lemma newLocation_eq:
  assumes n: "2 \<le> length rp" and p0: "0 \<le> p"
  shows "newLocation rp google now p =
    Some \<lparr>lat = lat (interpolatePoints (rp ! nat (findCurrentSegment rp p))
                  (rp ! Suc (nat (findCurrentSegment rp p))) (segmentProgress rp p)),
          lng = lng (interpolatePoints (rp ! nat (findCurrentSegment rp p))
                  (rp ! Suc (nat (findCurrentSegment rp p))) (segmentProgress rp p)),
          timestamp = now, accuracy = None, speed = Some 60,
          heading = Some (calculateHeading google (rp ! nat (findCurrentSegment rp p))
                  (rp ! Suc (nat (findCurrentSegment rp p))))\<rparr>"
proof -
  let ?i = "findCurrentSegment rp p"
  have lo: "0 \<le> ?i" and hi: "?i \<le> int (length rp) - 2"
    using findCurrentSegment_bounds [OF n p0] by simp_all
  have a: "elemAt rp ?i = Some (rp ! nat ?i)"
    using lo hi by (simp add: elemAt_Some)
  have "elemAt rp (?i + 1) = Some (rp ! nat (?i + 1))"
    using lo hi by (simp add: elemAt_Some)
  moreover have "nat (?i + 1) = Suc (nat ?i)"
    using lo by simp
  ultimately have b: "elemAt rp (?i + 1) = Some (rp ! Suc (nat ?i))"
    by simp
  show ?thesis
    by (simp add: newLocation_def Let_def a b)
qed

lemma newLocation_position:
  assumes "2 \<le> length rp" and "0 \<le> p" and "newLocation rp google now p = Some l"
  shows "lat l = lat (interpolatePoints (rp ! nat (findCurrentSegment rp p))
                  (rp ! Suc (nat (findCurrentSegment rp p))) (segmentProgress rp p))"
    and "lng l = lng (interpolatePoints (rp ! nat (findCurrentSegment rp p))
                  (rp ! Suc (nat (findCurrentSegment rp p))) (segmentProgress rp p))"
  using assms(3) by (auto simp: newLocation_eq [OF assms(1,2)])

lemma interpolatePoints_lat:
  "lat (interpolatePoints \<lparr>lat = a1, lng = b1\<rparr> \<lparr>lat = a2, lng = b2\<rparr> t)
    = fl (a1 + fl (fl (a2 - a1) * t))"
  by (simp add: interpolatePoints_def)

lemma interpolatePoints_lng:
  "lng (interpolatePoints \<lparr>lat = a1, lng = b1\<rparr> \<lparr>lat = a2, lng = b2\<rparr> t)
    = fl (b1 + fl (fl (b2 - b1) * t))"
  by (simp add: interpolatePoints_def)

lemma point_eta: "\<lparr>lat = lat q, lng = lng q\<rparr> = (q :: point)"
  by (cases q) simp

lemma newLocation_first:
  assumes n: "2 \<le> length rp" and d: "doubles rp" and l: "newLocation rp google now 0 = Some l"
  shows "lat l = lat (rp ! 0)" and "lng l = lng (rp ! 0)"
proof -
  have "0 < length rp" using n by auto
  then have "fl (lat (rp ! 0)) = lat (rp ! 0)" and "fl (lng (rp ! 0)) = lng (rp ! 0)"
    using d by (simp_all add: doubles_def list_all_length)
  then show "lat l = lat (rp ! 0)" and "lng l = lng (rp ! 0)"
    using newLocation_position [OF n _ l]
    by (simp_all add: findCurrentSegment_zero [OF n] segmentProgress_zero [OF n]
        interpolatePoints_def)
qed

lemma newLocation_last_shipped:
  assumes l: "newLocation routePoints google now 1 = Some l"
  shows "lat l = fl (173850 / 10000)" and "lng l = fl (784867 / 10000)"
proof -
  have n: "2 \<le> length routePoints"
    by (simp add: length_routePoints)
  have i: "nat (findCurrentSegment routePoints 1) = 6"
    by (simp add: findCurrentSegment_one length_routePoints)
  have p1: "routePoints ! 6 = \<lparr>lat = fl (174500 / 10000), lng = fl (785500 / 10000)\<rparr>"
    by (simp add: routePoints_def)
  have p2: "routePoints ! Suc 6 = \<lparr>lat = fl (173850 / 10000), lng = fl (784867 / 10000)\<rparr>"
    by (simp add: routePoints_def)
  have "lat l = lat (interpolatePoints (routePoints ! 6) (routePoints ! Suc 6)
      (segmentProgress routePoints 1))"
    using newLocation_position(1) [OF n _ l] by (simp only: i)
  also have "\<dots> = fl (fl (174500 / 10000)
      + fl (fl (fl (173850 / 10000) - fl (174500 / 10000)) * (4503599627370498 / 2 ^ 52)))"
    by (simp only: p1 p2 interpolatePoints_lat segmentProgress_shipped_one)
  also have "\<dots> = 4893442470114755 / 2 ^ 48"
    by (simp only: fl_lat6 fl_lat7 fl_lat_diff fl_lat_scaled fl_lat_end)
  also have "\<dots> = fl (173850 / 10000)"
    by (simp only: fl_lat7)
  finally show "lat l = fl (173850 / 10000)" .
  have "lng l = lng (interpolatePoints (routePoints ! 6) (routePoints ! Suc 6)
      (segmentProgress routePoints 1))"
    using newLocation_position(2) [OF n _ l] by (simp only: i)
  also have "\<dots> = fl (fl (785500 / 10000)
      + fl (fl (fl (784867 / 10000) - fl (785500 / 10000)) * (4503599627370498 / 2 ^ 52)))"
    by (simp only: p1 p2 interpolatePoints_lng segmentProgress_shipped_one)
  also have "\<dots> = 5523010513649061 / 2 ^ 46"
    by (simp only: fl_lng6 fl_lng7 fl_lng_diff fl_lng_scaled fl_lng_end)
  also have "\<dots> = fl (784867 / 10000)"
    by (simp only: fl_lng7)
  finally show "lng l = fl (784867 / 10000)" .
qed




text \<open>
  Claim C3, as amended. For every route of at least two waypoints whose coordinates
  are doubles, the position of the sample built at progress 0 is the first waypoint
  exactly. On the route of the component the position of the sample built at progress
  1 is the last waypoint exactly. (On other routes the interpolation at progress 1 is
  rounded and can miss the last waypoint.)
\<close>

theorem interpolation_endpoints:
  assumes "2 \<le> length rp" and "doubles rp"
  shows "map_option (\<lambda>l. (lat l, lng l)) (newLocation rp google now 0)
      = Some (lat (rp ! 0), lng (rp ! 0))
    \<and> map_option (\<lambda>l. (lat l, lng l)) (newLocation routePoints google now 1)
      = Some (lat (last routePoints), lng (last routePoints))"
proof -
  obtain l0 where l0: "newLocation rp google now 0 = Some l0"
    using newLocation_eq [OF assms(1), of 0 google now] by simp
  have "lat l0 = lat (rp ! 0)" and "lng l0 = lng (rp ! 0)"
    using newLocation_first [OF assms l0] by simp_all
  then have first: "map_option (\<lambda>l. (lat l, lng l)) (newLocation rp google now 0)
      = Some (lat (rp ! 0), lng (rp ! 0))"
    by (simp add: l0)
  have n: "2 \<le> length routePoints"
    by (simp add: length_routePoints)
  obtain l1 where l1: "newLocation routePoints google now 1 = Some l1"
    using newLocation_eq [OF n, of 1 google now] by simp
  have "last routePoints = \<lparr>lat = fl (173850 / 10000), lng = fl (784867 / 10000)\<rparr>"
    by (simp add: routePoints_def)
  then have "lat l1 = lat (last routePoints)" and "lng l1 = lng (last routePoints)"
    using newLocation_last_shipped [OF l1] by simp_all
  then have "map_option (\<lambda>l. (lat l, lng l)) (newLocation routePoints google now 1)
      = Some (lat (last routePoints), lng (last routePoints))"
    by (simp add: l1)
  with first show ?thesis by simp
qed

theorem interpolation_endpoints_witness:
  "2 \<le> length routePoints \<and> doubles routePoints
    \<and> map_option (\<lambda>l. (lat l, lng l)) (newLocation routePoints None 0 0)
      = Some (lat (routePoints ! 0), lng (routePoints ! 0))
    \<and> map_option (\<lambda>l. (lat l, lng l)) (newLocation routePoints None 0 1)
      = Some (lat (last routePoints), lng (last routePoints))"
proof -
  have n: "2 \<le> length routePoints"
    by (simp add: length_routePoints)
  have d: "doubles routePoints"
    by (simp add: doubles_def routePoints_def fl_idem)
  show ?thesis
    using n d interpolation_endpoints [OF n d, of None 0] by blast
qed

text \<open>
  The claim C3 as stated fails at \<open>p = 1\<close>: on the route of two waypoints from
  longitude -0.1276 to longitude 0.0005 the sample built at progress 1 has longitude
  0.0005000000000000004, one unit in the last place above the last waypoint.
\<close>

theorem interpolation_endpoint_counterexample:
  "doubles [\<lparr>lat = fl (515 / 10), lng = fl (- (1276 / 10000))\<rparr>,
        \<lparr>lat = fl (515 / 10), lng = fl (5 / 10000)\<rparr>]
   \<and> map_option lng (newLocation [\<lparr>lat = fl (515 / 10), lng = fl (- (1276 / 10000))\<rparr>,
        \<lparr>lat = fl (515 / 10), lng = fl (5 / 10000)\<rparr>] None 0 1) = Some (4611686018427392 / 2 ^ 63)
   \<and> lng (last [\<lparr>lat = fl (515 / 10), lng = fl (- (1276 / 10000))\<rparr>,
        \<lparr>lat = fl (515 / 10), lng = fl (5 / 10000)\<rparr>]) = 4611686018427388 / 2 ^ 63
   \<and> map_option lng (newLocation [\<lparr>lat = fl (515 / 10), lng = fl (- (1276 / 10000))\<rparr>,
        \<lparr>lat = fl (515 / 10), lng = fl (5 / 10000)\<rparr>] None 0 1)
     \<noteq> Some (lng (last [\<lparr>lat = fl (515 / 10), lng = fl (- (1276 / 10000))\<rparr>,
        \<lparr>lat = fl (515 / 10), lng = fl (5 / 10000)\<rparr>]))"
proof -
  let ?rp = "[\<lparr>lat = fl (515 / 10), lng = fl (- (1276 / 10000))\<rparr>,
        \<lparr>lat = fl (515 / 10), lng = fl (5 / 10000)\<rparr>] :: point list"
  have n: "2 \<le> length ?rp" and len: "length ?rp = 2"
    by simp_all
  have d: "doubles ?rp"
    by (simp add: doubles_def fl_idem)
  obtain l where l: "newLocation ?rp None 0 1 = Some l"
    using newLocation_eq [OF n, of 1 None 0] by simp
  have i: "nat (findCurrentSegment ?rp 1) = 0"
    by (simp add: findCurrentSegment_one)
  have p1: "?rp ! 0 = \<lparr>lat = fl (515 / 10), lng = fl (- (1276 / 10000))\<rparr>"
    and p2: "?rp ! Suc 0 = \<lparr>lat = fl (515 / 10), lng = fl (5 / 10000)\<rparr>"
    by simp_all
  have t: "segmentProgress ?rp 1 = 1"
    using len by (rule segmentProgress_two_points_one)
  have "lng l = lng (interpolatePoints (?rp ! 0) (?rp ! Suc 0) (segmentProgress ?rp 1))"
    using newLocation_position(2) [OF n _ l] by (simp only: i)
  also have "\<dots> = fl (fl (- (1276 / 10000))
      + fl (fl (fl (5 / 10000) - fl (- (1276 / 10000))) * 1))"
    by (simp only: p1 p2 interpolatePoints_lng t)
  also have "\<dots> = 4611686018427392 / 2 ^ 63"
    by (simp only: fl_west fl_east fl_cx_diff fl_cx_scaled fl_cx_end)
  finally have v: "lng l = 4611686018427392 / 2 ^ 63" .
  have "last ?rp = \<lparr>lat = fl (515 / 10), lng = fl (5 / 10000)\<rparr>"
    by simp
  then have e: "lng (last ?rp) = 4611686018427388 / 2 ^ 63"
    by (simp only: point.select_convs fl_east)
  have "(4611686018427392 / 2 ^ 63 :: real) \<noteq> 4611686018427388 / 2 ^ 63"
    by simp
  then show ?thesis
    using d v e by (simp only: l) simp
qed

text \<open>
  Claim C8. Two progress values in \<open>[0, 1]\<close> that resolve to the same segment give
  samples with the same heading. That heading is what the mapping library computes
  from the segment's start waypoint to its end waypoint, in this order (and 0 when the
  library is absent); on a route of two waypoints it is the library's heading from
  waypoint 0 to waypoint 1 at every progress.
\<close>

theorem heading_constant_within_segment:
  assumes "2 \<le> length rp" and "0 \<le> p" and "p \<le> 1" and "0 \<le> p'" and "p' \<le> 1"
    and "findCurrentSegment rp p = findCurrentSegment rp p'"
  shows "map_option heading (newLocation rp google now p)
      = map_option heading (newLocation rp google now' p')
    \<and> map_option heading (newLocation rp google now p)
      = Some (Some (case google of
                      None \<Rightarrow> 0
                    | Some computeHeading \<Rightarrow>
                        computeHeading (rp ! nat (findCurrentSegment rp p))
                          (rp ! Suc (nat (findCurrentSegment rp p)))))
    \<and> (length rp = 2 \<longrightarrow> map_option heading (newLocation rp google now p)
      = Some (Some (case google of
                      None \<Rightarrow> 0
                    | Some computeHeading \<Rightarrow> computeHeading (rp ! 0) (rp ! 1))))"
  using assms
  by (simp add: newLocation_eq findCurrentSegment_two_points calculateHeading_def point_eta
      split: option.splits)

theorem heading_constant_within_segment_witness:
  "map_option heading
     (newLocation [\<lparr>lat = fl (184386 / 10000), lng = fl (791288 / 10000)\<rparr>,
                   \<lparr>lat = fl (173850 / 10000), lng = fl (784867 / 10000)\<rparr>]
        (Some (\<lambda>a b. lng b - lng a)) 0 (1 / 4))
    = map_option heading
     (newLocation [\<lparr>lat = fl (184386 / 10000), lng = fl (791288 / 10000)\<rparr>,
                   \<lparr>lat = fl (173850 / 10000), lng = fl (784867 / 10000)\<rparr>]
        (Some (\<lambda>a b. lng b - lng a)) 16 (1 / 2))
   \<and> map_option heading
     (newLocation [\<lparr>lat = fl (184386 / 10000), lng = fl (791288 / 10000)\<rparr>,
                   \<lparr>lat = fl (173850 / 10000), lng = fl (784867 / 10000)\<rparr>]
        (Some (\<lambda>a b. lng b - lng a)) 0 (1 / 4))
    = Some (Some (fl (784867 / 10000) - fl (791288 / 10000)))"
proof -
  let ?rp = "[\<lparr>lat = fl (184386 / 10000), lng = fl (791288 / 10000)\<rparr>,
              \<lparr>lat = fl (173850 / 10000), lng = fl (784867 / 10000)\<rparr>] :: point list"
  have len: "length ?rp = 2" and n: "2 \<le> length ?rp"
    by simp_all
  have seg: "findCurrentSegment ?rp (1 / 4) = findCurrentSegment ?rp (1 / 2)"
    by (simp add: findCurrentSegment_two_points)
  have b: "(0::real) \<le> 1 / 4" "(1::real) / 4 \<le> 1" "(0::real) \<le> 1 / 2" "(1::real) / 2 \<le> 1"
    by simp_all
  note t = heading_constant_within_segment
    [OF n b seg, of "Some (\<lambda>a b. lng b - lng a)" 0 16]
  have same: "map_option heading (newLocation ?rp (Some (\<lambda>a b. lng b - lng a)) 0 (1 / 4))
      = map_option heading (newLocation ?rp (Some (\<lambda>a b. lng b - lng a)) 16 (1 / 2))"
    using t by (rule conjunct1)
  have "map_option heading (newLocation ?rp (Some (\<lambda>a b. lng b - lng a)) 0 (1 / 4))
      = Some (Some (lng (?rp ! 1) - lng (?rp ! 0)))"
    using t [THEN conjunct2, THEN conjunct2, THEN mp, OF len] by (simp only: option.case)
  moreover have "lng (?rp ! 1) - lng (?rp ! 0) = fl (784867 / 10000) - fl (791288 / 10000)"
    by simp
  ultimately have bearing:
    "map_option heading (newLocation ?rp (Some (\<lambda>a b. lng b - lng a)) 0 (1 / 4))
      = Some (Some (fl (784867 / 10000) - fl (791288 / 10000)))"
    by (simp only:)
  show ?thesis
    using same bearing by (rule conjI)
qed

subsection \<open>The session state machine\<close>


lemma commit_same:
  "progress prev = progress cur \<Longrightarrow> isConnected prev = isConnected cur \<Longrightarrow>
   commit rp google now prev cur = Some cur"
  by (simp add: commit.simps)

lemma commit_changed:
  "progress prev \<noteq> progress cur \<or> isConnected prev \<noteq> isConnected cur \<Longrightarrow>
   commit rp google now prev cur =
     (case runEffects rp google now prev cur of
        None \<Rightarrow> None
      | Some nxt \<Rightarrow> commit rp google now cur nxt)"
  by (subst commit.simps) auto

lemma advance_bounds:
  assumes "0 \<le> p" and "p \<le> 1"
  shows "0 \<le> advance p" and "advance p \<le> 1" and "p \<le> advance p"
  using assms by (simp_all add: advance_def Let_def)

lemma advance_one: "advance 1 = 1"
  by (simp add: advance_def Let_def)

lemma advance_fixed: "p \<le> 1 \<Longrightarrow> advance p = p \<longleftrightarrow> p = 1"
  by (auto simp: advance_def Let_def)

lemma newLocation_Some:
  assumes "2 \<le> length rp" and "0 \<le> p"
  shows "\<exists>l. newLocation rp google now p = Some l"
  using newLocation_eq [OF assms] by simp

lemma newLocation_timestamp: "newLocation rp google now p = Some l \<Longrightarrow> timestamp l = now"
  by (auto simp: newLocation_def Let_def split: option.splits)

lemma step_frame_idle:
  assumes "stable s" and "\<not> isConnected s"
  shows "step rp google (Frame now) s = Some s"
proof -
  have "frames s = []" using assms by (simp add: stable_def)
  then have "animationFrame s = s" by (simp add: animationFrame_def)
  then show ?thesis by (simp add: step.simps commit_same)
qed

lemma step_click_stop:
  assumes "stable s" and "isConnected s"
  shows "step rp google (Click now) s =
    Some (s\<lparr>isConnected := False, animationRef := None, frames := []\<rparr>)"
proof -
  obtain h where h: "animationRef s = Some h" "h \<noteq> 0" "frames s = [(h, True)]"
    using assms by (auto simp: stable_def split: option.splits)
  have eff: "runEffects rp google now s (s\<lparr>isConnected := False\<rparr>)
      = Some (s\<lparr>isConnected := False, animationRef := None, frames := []\<rparr>)"
    using assms(2) h
    by (simp add: runEffects_def startStopEffect_def stopAnimation_def cancelAnimationFrame_def
        updateTargetEffect_def)
  show ?thesis
    using assms(2) by (simp add: step.simps connectToTracker_def commit_changed eff commit_same)
qed


lemma animationFrame_running:
  assumes "stable s" and "isConnected s"
  shows "animationFrame s =
    s\<lparr>progress := advance (progress s), frames := [(nextHandle s, True)],
      nextHandle := Suc (nextHandle s), animationRef := Some (nextHandle s)\<rparr>"
proof -
  obtain h where h: "animationRef s = Some h" "frames s = [(h, True)]"
    using assms by (auto simp: stable_def split: option.splits)
  show ?thesis
    using h by (simp add: animationFrame_def animateAlongRoute_def requestAnimationFrame_def Let_def)
qed

lemma step_frame_end:
  assumes "stable s" and "isConnected s" and "progress s = 1"
  shows "step rp google (Frame now) s =
    Some (s\<lparr>frames := [(nextHandle s, True)], nextHandle := Suc (nextHandle s),
            animationRef := Some (nextHandle s)\<rparr>)"
  using assms by (simp add: step.simps animationFrame_running advance_one commit_same)

lemma step_frame_advance:
  assumes st: "stable s" and c: "isConnected s" and lt: "progress s < 1"
    and l: "newLocation rp google now (advance (progress s)) = Some l"
  shows "step rp google (Frame now) s =
    Some (s\<lparr>progress := advance (progress s), frames := [(nextHandle s, True)],
            nextHandle := Suc (nextHandle s), animationRef := Some (nextHandle s),
            targetLocation := Some l, locationHistory := locationHistory s @ [l]\<rparr>)"
proof -
  let ?cur = "s\<lparr>progress := advance (progress s), frames := [(nextHandle s, True)],
      nextHandle := Suc (nextHandle s), animationRef := Some (nextHandle s)\<rparr>"
  have ne: "progress s \<noteq> advance (progress s)"
    using lt advance_fixed [of "progress s"] by auto
  have eff: "runEffects rp google now s ?cur =
      Some (?cur\<lparr>targetLocation := Some l, locationHistory := locationHistory s @ [l]\<rparr>)"
    using c ne l by (simp add: runEffects_def updateTargetEffect_def)
  have "commit rp google now s ?cur =
      Some (?cur\<lparr>targetLocation := Some l, locationHistory := locationHistory s @ [l]\<rparr>)"
    using ne by (simp add: commit_changed eff commit_same)
  then show ?thesis
    using st c by (simp add: step.simps animationFrame_running)
qed

lemma step_click_start:
  assumes st: "stable s" and c: "\<not> isConnected s"
    and l: "newLocation rp google now (progress s) = Some l"
    and l0: "newLocation rp google now 0 = Some l0"
  shows "step rp google (Click now) s =
    Some (s\<lparr>isConnected := True, progress := 0,
            frames := [(nextHandle s, True)], nextHandle := Suc (nextHandle s),
            animationRef := Some (nextHandle s), targetLocation := Some l0,
            locationHistory := (if progress s = 0 then [l0] else [l, l0])\<rparr>)"
proof -
  let ?cur = "s\<lparr>isConnected := True\<rparr>"
  let ?n1 = "s\<lparr>isConnected := True, progress := 0,
            frames := [(nextHandle s, True)], nextHandle := Suc (nextHandle s),
            animationRef := Some (nextHandle s), targetLocation := Some l,
            locationHistory := [l]\<rparr>"
  have idle: "animationRef s = None" "frames s = []"
    using st c by (simp_all add: stable_def)
  have eff1: "runEffects rp google now s ?cur = Some ?n1"
    using c idle l
    by (simp add: runEffects_def startStopEffect_def stopAnimation_def requestAnimationFrame_def
        updateTargetEffect_def Let_def)
  have c1: "commit rp google now s ?cur = commit rp google now ?cur ?n1"
    using c by (simp add: commit_changed eff1)
  show ?thesis
  proof (cases "progress s = 0")
    case True
    then have "l = l0" using l l0 by simp
    moreover have "commit rp google now ?cur ?n1 = Some ?n1"
      using True by (simp add: commit_same)
    ultimately show ?thesis
      using c c1 True by (simp add: step.simps connectToTracker_def)
  next
    case False
    have eff2: "runEffects rp google now ?cur ?n1 =
        Some (?n1\<lparr>targetLocation := Some l0, locationHistory := [l, l0]\<rparr>)"
      using False l0 by (simp add: runEffects_def updateTargetEffect_def)
    have "commit rp google now ?cur ?n1 =
        Some (?n1\<lparr>targetLocation := Some l0, locationHistory := [l, l0]\<rparr>)"
      using False by (simp add: commit_changed eff2 commit_same)
    then show ?thesis
      using c c1 False by (simp add: step.simps connectToTracker_def)
  qed
qed


lemma stable_init: "stable (init t0)"
  by (simp add: stable_def init_def)

lemma frame_idle_props:
  assumes "stable s" and "\<not> isConnected s"
  shows "run rp google (map Frame ts) s = Some s"
  using assms by (induction ts) (simp_all add: step_frame_idle)

lemma stop_props:
  assumes "stable s" and "isConnected s"
  shows "\<exists>s'. step rp google (Click now) s = Some s' \<and> stable s' \<and> \<not> isConnected s'
    \<and> frames s' = [] \<and> animationRef s' = None
    \<and> progress s' = progress s \<and> locationHistory s' = locationHistory s
    \<and> targetLocation s' = targetLocation s"
  using assms by (simp add: step_click_stop stable_def)

lemma frame_end_props:
  assumes "stable s" and "isConnected s" and "progress s = 1"
  shows "\<exists>s'. step rp google (Frame now) s = Some s' \<and> stable s' \<and> isConnected s'
    \<and> progress s' = 1 \<and> locationHistory s' = locationHistory s
    \<and> targetLocation s' = targetLocation s"
  using assms by (simp add: step_frame_end stable_def)

lemma frame_advance_props:
  assumes st: "stable s" and c: "isConnected s" and lt: "progress s < 1" and n: "2 \<le> length rp"
  shows "\<exists>s' l. step rp google (Frame now) s = Some s' \<and> stable s' \<and> isConnected s'
    \<and> progress s' = advance (progress s)
    \<and> newLocation rp google now (advance (progress s)) = Some l
    \<and> locationHistory s' = locationHistory s @ [l] \<and> targetLocation s' = Some l"
proof -
  have p: "0 \<le> progress s" "progress s \<le> 1"
    using st by (simp_all add: stable_def)
  have a: "0 \<le> advance (progress s)" "advance (progress s) \<le> 1"
    using advance_bounds [OF p] by simp_all
  obtain l where l: "newLocation rp google now (advance (progress s)) = Some l"
    using newLocation_Some [OF n a(1)] by blast
  show ?thesis
    using st c a l by (simp add: step_frame_advance [OF st c lt l] stable_def)
qed

lemma start_props:
  assumes st: "stable s" and c: "\<not> isConnected s" and n: "2 \<le> length rp"
  shows "\<exists>s' l l0. step rp google (Click now) s = Some s' \<and> stable s' \<and> isConnected s'
    \<and> progress s' = 0
    \<and> newLocation rp google now (progress s) = Some l
    \<and> newLocation rp google now 0 = Some l0
    \<and> locationHistory s' = (if progress s = 0 then [l0] else [l, l0])
    \<and> targetLocation s' = Some l0"
proof -
  have p: "0 \<le> progress s" and h: "0 < nextHandle s"
    using st by (simp_all add: stable_def)
  obtain l where l: "newLocation rp google now (progress s) = Some l"
    using newLocation_Some [OF n p] by blast
  obtain l0 where l0: "newLocation rp google now 0 = Some l0"
    using newLocation_Some [OF n, of 0] by auto
  show ?thesis
    using h l l0 by (simp add: step_click_start [OF st c l l0] stable_def)
qed

lemma step_stable:
  assumes st: "stable s" and n: "2 \<le> length rp"
  shows "\<exists>s'. step rp google e s = Some s' \<and> stable s'"
proof (cases e)
  case (Click now)
  show ?thesis
  proof (cases "isConnected s")
    case True
    then show ?thesis using stop_props [OF st True] Click by blast
  next
    case False
    then show ?thesis using start_props [OF st False n] Click by blast
  qed
next
  case (Frame now)
  show ?thesis
  proof (cases "isConnected s")
    case False
    then show ?thesis using step_frame_idle [OF st False] Frame st by simp
  next
    case True
    show ?thesis
    proof (cases "progress s < 1")
      case True
      then show ?thesis using frame_advance_props [OF st \<open>isConnected s\<close> True n] Frame by blast
    next
      case False
      then have "progress s = 1" using st by (simp add: stable_def)
      then show ?thesis using frame_end_props [OF st \<open>isConnected s\<close>] Frame by blast
    qed
  qed
qed

lemma run_append:
  "run rp google (es @ es') s =
    (case run rp google es s of None \<Rightarrow> None | Some s' \<Rightarrow> run rp google es' s')"
  by (induction es arbitrary: s) (simp_all split: option.splits)

lemma advance_step:
  assumes "j < 1000"
  shows "advance (real j / 1000) = real (Suc j) / 1000"
proof -
  have "real j + 1 \<le> 1000" using assms by simp
  then show ?thesis by (simp add: advance_def Let_def field_simps)
qed

lemma run_frames_end:
  assumes "stable s" and "progress s = 1"
  shows "\<exists>s'. run rp google (map Frame ts) s = Some s' \<and> stable s'
    \<and> isConnected s' = isConnected s \<and> progress s' = 1
    \<and> locationHistory s' = locationHistory s \<and> targetLocation s' = targetLocation s"
  using assms
proof (induction ts arbitrary: s)
  case Nil
  then show ?case by simp
next
  case (Cons t ts)
  show ?case
  proof (cases "isConnected s")
    case False
    then show ?thesis
      using frame_idle_props [OF Cons.prems(1) False, of rp google "t # ts"] Cons.prems by simp
  next
    case True
    obtain s1 where s1: "step rp google (Frame t) s = Some s1" "stable s1" "isConnected s1"
      "progress s1 = 1" "locationHistory s1 = locationHistory s"
      "targetLocation s1 = targetLocation s"
      using frame_end_props [OF Cons.prems(1) True Cons.prems(2)] by blast
    show ?thesis
      using Cons.IH [OF s1(2) s1(4)] s1 True by simp
  qed
qed

lemma run_frames_running:
  assumes "stable s" and "isConnected s" and "progress s = real j / 1000" and "j \<le> 1000"
    and n: "2 \<le> length rp"
  shows "\<exists>s'. run rp google (map Frame ts) s = Some s' \<and> stable s' \<and> isConnected s'
    \<and> progress s' = real (min (j + length ts) 1000) / 1000
    \<and> map timestamp (locationHistory s') = map timestamp (locationHistory s) @ take (1000 - j) ts"
  using assms(1-4)
proof (induction ts arbitrary: s j)
  case Nil
  then show ?case by simp
next
  case (Cons t ts)
  show ?case
  proof (cases "j < 1000")
    case True
    then have lt: "progress s < 1" using Cons.prems by simp
    obtain s1 l where s1: "step rp google (Frame t) s = Some s1" "stable s1" "isConnected s1"
      "progress s1 = advance (progress s)"
      "newLocation rp google t (advance (progress s)) = Some l"
      "locationHistory s1 = locationHistory s @ [l]"
      using frame_advance_props [OF Cons.prems(1,2) lt n] by blast
    have p1: "progress s1 = real (Suc j) / 1000"
      using s1(4) Cons.prems(3) advance_step [OF True] by simp
    have tl: "timestamp l = t"
      using s1(5) by (rule newLocation_timestamp)
    have tk: "take (1000 - j) (t # ts) = t # take (1000 - Suc j) ts"
      using True by (simp add: take_Cons')
    obtain s' where s': "run rp google (map Frame ts) s1 = Some s'" "stable s'" "isConnected s'"
      "progress s' = real (min (Suc j + length ts) 1000) / 1000"
      "map timestamp (locationHistory s') =
         map timestamp (locationHistory s1) @ take (1000 - Suc j) ts"
      using Cons.IH [OF s1(2,3) p1] True by auto
    show ?thesis
      using s1(1) s' s1(6) tl tk by simp
  next
    case False
    then have j: "j = 1000" using Cons.prems by simp
    then have one: "progress s = 1" using Cons.prems by simp
    obtain s' where s': "run rp google (map Frame (t # ts)) s = Some s'" "stable s'"
      "isConnected s' = isConnected s" "progress s' = 1"
      "locationHistory s' = locationHistory s"
      using run_frames_end [OF Cons.prems(1) one, of rp google "t # ts"] by blast
    show ?thesis
      using s' Cons.prems(2) j by simp
  qed
qed


lemma run_frames_monotone:
  assumes "stable s" and "isConnected s" and n: "2 \<le> length rp"
  shows "\<exists>s'. run rp google (map Frame ts) s = Some s' \<and> stable s' \<and> isConnected s'
    \<and> progress s \<le> progress s'"
  using assms(1,2)
proof (induction ts arbitrary: s)
  case Nil
  then show ?case by simp
next
  case (Cons t ts)
  have p: "0 \<le> progress s" "progress s \<le> 1"
    using Cons.prems(1) by (simp_all add: stable_def)
  have "\<exists>s1. step rp google (Frame t) s = Some s1 \<and> stable s1 \<and> isConnected s1
      \<and> progress s \<le> progress s1"
  proof (cases "progress s < 1")
    case True
    then show ?thesis
      using frame_advance_props [OF Cons.prems True n, of google t] advance_bounds(3) [OF p]
      by auto
  next
    case False
    then have "progress s = 1" using p by simp
    then show ?thesis
      using frame_end_props [OF Cons.prems, of rp google t] by auto
  qed
  then obtain s1 where s1: "step rp google (Frame t) s = Some s1" "stable s1" "isConnected s1"
    "progress s \<le> progress s1"
    by blast
  obtain s' where "run rp google (map Frame ts) s1 = Some s'" "stable s'" "isConnected s'"
    "progress s1 \<le> progress s'"
    using Cons.IH [OF s1(2,3)] by blast
  then show ?case
    using s1 by auto
qed

text \<open>
  Claim C2. Once Progress is 1, it is still exactly 1 after any number of further ticks,
  so no tick makes it exceed 1.
\<close>

theorem progress_clamped_at_one:
  assumes "stable s" and "progress s = 1"
  shows "\<exists>s'. run rp google (map Frame ts) s = Some s' \<and> progress s' = 1"
  using run_frames_end [OF assms, of rp google ts] by blast

theorem progress_clamped_at_one_witness:
  "stable \<lparr>isConnected = True, progress = 1, locationHistory = [], targetLocation = None,
      animationRef = Some 1, frames = [(1, True)], nextHandle = 2\<rparr>
   \<and> progress \<lparr>isConnected = True, progress = 1, locationHistory = [], targetLocation = None,
      animationRef = Some 1, frames = [(1, True)], nextHandle = 2\<rparr> = 1
   \<and> (\<exists>s'. run routePoints None (map Frame [16, 32])
          \<lparr>isConnected = True, progress = 1, locationHistory = [], targetLocation = None,
           animationRef = Some 1, frames = [(1, True)], nextHandle = 2\<rparr> = Some s'
        \<and> progress s' = 1)"
proof -
  let ?s = "\<lparr>isConnected = True, progress = 1, locationHistory = [], targetLocation = None,
      animationRef = Some 1, frames = [(1, True)], nextHandle = 2\<rparr>"
  have a: "stable ?s" by (simp add: stable_def)
  have b: "progress ?s = 1" by simp
  show ?thesis
    using a b progress_clamped_at_one [OF a b, of routePoints None "[16, 32]"] by blast
qed

text \<open>
  Claim C6. While the session is Running, Progress never decreases over any number of
  ticks (and the session is still Running afterwards); the start command, issued while
  Idle, leaves Progress at exactly 0.
\<close>

theorem progress_monotone_and_reset:
  assumes "stable s" and "2 \<le> length rp"
  shows "(isConnected s \<longrightarrow>
      (\<exists>s'. run rp google (map Frame ts) s = Some s' \<and> stable s' \<and> isConnected s'
         \<and> progress s \<le> progress s'))
    \<and> (\<not> isConnected s \<longrightarrow>
      (\<exists>s'. step rp google (Click now) s = Some s' \<and> stable s' \<and> isConnected s'
         \<and> progress s' = 0))"
proof (intro conjI impI)
  assume "isConnected s"
  then show "\<exists>s'. run rp google (map Frame ts) s = Some s' \<and> stable s' \<and> isConnected s'
         \<and> progress s \<le> progress s'"
    using run_frames_monotone [OF assms(1) _ assms(2)] by blast
next
  assume "\<not> isConnected s"
  then show "\<exists>s'. step rp google (Click now) s = Some s' \<and> stable s' \<and> isConnected s'
         \<and> progress s' = 0"
    using start_props [OF assms(1) _ assms(2), of google now] by blast
qed

theorem progress_monotone_and_reset_witness:
  "(stable \<lparr>isConnected = True, progress = 1 / 2, locationHistory = [], targetLocation = None,
      animationRef = Some 1, frames = [(1, True)], nextHandle = 2\<rparr>
    \<and> 2 \<le> length routePoints
    \<and> isConnected \<lparr>isConnected = True, progress = 1 / 2, locationHistory = [],
      targetLocation = None, animationRef = Some 1, frames = [(1, True)], nextHandle = 2\<rparr>
    \<and> (\<exists>s'. run routePoints None (map Frame [16, 32])
          \<lparr>isConnected = True, progress = 1 / 2, locationHistory = [], targetLocation = None,
           animationRef = Some 1, frames = [(1, True)], nextHandle = 2\<rparr> = Some s'
        \<and> stable s' \<and> isConnected s' \<and> 1 / 2 \<le> progress s'))
   \<and> (stable (init 0) \<and> \<not> isConnected (init 0)
    \<and> (\<exists>s'. step routePoints None (Click 5) (init 0) = Some s' \<and> stable s'
        \<and> isConnected s' \<and> progress s' = 0))"
proof -
  let ?s = "\<lparr>isConnected = True, progress = 1 / 2, locationHistory = [], targetLocation = None,
      animationRef = Some 1, frames = [(1, True)], nextHandle = 2\<rparr>"
  have n: "2 \<le> length routePoints" by (simp add: routePoints_def)
  have a: "stable ?s" by (simp add: stable_def)
  have b: "stable (init 0)" by (simp add: stable_def init_def)
  have c: "isConnected ?s" by simp
  have d: "\<not> isConnected (init 0)" by (simp add: init_def)
  have e: "progress ?s = 1 / 2" by simp
  show ?thesis
    using n a b c d e
      progress_monotone_and_reset [OF a n, of None "[16, 32]" 0]
      progress_monotone_and_reset [OF b n, of None "[]" 5]
    by (simp only: simp_thms)
qed

text \<open>
  Claim C7. The stop command cancels the pending animation frame and changes nothing
  else: Progress, the history and the target location keep their values, and every
  later tick leaves the whole state as it is.
\<close>

theorem stop_retains_progress_and_history:
  assumes "stable s" and "isConnected s"
  shows "\<exists>s'. step rp google (Click now) s = Some s' \<and> \<not> isConnected s'
    \<and> frames s' = [] \<and> animationRef s' = None
    \<and> progress s' = progress s \<and> locationHistory s' = locationHistory s
    \<and> targetLocation s' = targetLocation s
    \<and> run rp google (map Frame ts) s' = Some s'"
proof -
  obtain s' where s': "step rp google (Click now) s = Some s'" "stable s'" "\<not> isConnected s'"
    "frames s' = []" "animationRef s' = None" "progress s' = progress s"
    "locationHistory s' = locationHistory s" "targetLocation s' = targetLocation s"
    using stop_props [OF assms, of rp google now] by blast
  have "run rp google (map Frame ts) s' = Some s'"
    using s'(2,3) by (rule frame_idle_props)
  then show ?thesis using s' by blast
qed

theorem stop_retains_progress_and_history_witness:
  "stable \<lparr>isConnected = True, progress = 1 / 2, locationHistory = [], targetLocation = None,
      animationRef = Some 1, frames = [(1, True)], nextHandle = 2\<rparr>
   \<and> isConnected \<lparr>isConnected = True, progress = 1 / 2, locationHistory = [],
      targetLocation = None, animationRef = Some 1, frames = [(1, True)], nextHandle = 2\<rparr>
   \<and> (\<exists>s'. step routePoints None (Click 48)
          \<lparr>isConnected = True, progress = 1 / 2, locationHistory = [], targetLocation = None,
           animationRef = Some 1, frames = [(1, True)], nextHandle = 2\<rparr> = Some s'
        \<and> \<not> isConnected s' \<and> frames s' = [] \<and> animationRef s' = None
        \<and> progress s' = 1 / 2 \<and> locationHistory s' = [] \<and> targetLocation s' = None
        \<and> run routePoints None (map Frame [64, 80]) s' = Some s')"
proof -
  let ?s = "\<lparr>isConnected = True, progress = 1 / 2, locationHistory = [], targetLocation = None,
      animationRef = Some 1, frames = [(1, True)], nextHandle = 2\<rparr>"
  have a: "stable ?s" by (simp add: stable_def)
  have c: "isConnected ?s" by simp
  show ?thesis
    using a c stop_retains_progress_and_history [OF a c, of routePoints None 48 "[64, 80]"]
    by simp
qed

subsection \<open>Sessions: start, ticks, stop, restart\<close>


lemma start_then_frames:
  assumes st: "stable s" and c: "\<not> isConnected s" and n: "2 \<le> length rp"
  shows "\<exists>s'. run rp google (Click now # map Frame ts) s = Some s' \<and> stable s'
    \<and> isConnected s' \<and> progress s' = real (min (length ts) 1000) / 1000
    \<and> map timestamp (locationHistory s') =
        (if progress s = 0 then [now] else [now, now]) @ take 1000 ts"
proof -
  obtain s1 l l0 where s1: "step rp google (Click now) s = Some s1" "stable s1" "isConnected s1"
    "progress s1 = 0" "newLocation rp google now (progress s) = Some l"
    "newLocation rp google now 0 = Some l0"
    "locationHistory s1 = (if progress s = 0 then [l0] else [l, l0])"
    using start_props [OF st c n, of google now] by blast
  have t: "timestamp l = now" "timestamp l0 = now"
    using s1(5,6) by (simp_all add: newLocation_timestamp)
  have p: "progress s1 = real 0 / 1000"
    using s1(4) by simp
  obtain s' where s': "run rp google (map Frame ts) s1 = Some s'" "stable s'" "isConnected s'"
    "progress s' = real (min (0 + length ts) 1000) / 1000"
    "map timestamp (locationHistory s') = map timestamp (locationHistory s1) @ take (1000 - 0) ts"
    using run_frames_running [OF s1(2,3) p _ n, of google ts] by auto
  show ?thesis
    using s1(1,7) s' t by simp
qed

lemma stop_start:
  assumes st: "stable s" and c: "isConnected s" and n: "2 \<le> length rp"
  shows "\<exists>s' l l0. run rp google [Click t1, Click t2] s = Some s' \<and> stable s'
    \<and> isConnected s' \<and> progress s' = 0
    \<and> newLocation rp google t2 (progress s) = Some l
    \<and> newLocation rp google t2 0 = Some l0
    \<and> locationHistory s' = (if progress s = 0 then [l0] else [l, l0])
    \<and> targetLocation s' = Some l0"
proof -
  obtain s1 where s1: "step rp google (Click t1) s = Some s1" "stable s1" "\<not> isConnected s1"
    "progress s1 = progress s"
    using stop_props [OF st c, of rp google t1] by blast
  obtain s' l l0 where s': "step rp google (Click t2) s1 = Some s'" "stable s'" "isConnected s'"
    "progress s' = 0" "newLocation rp google t2 (progress s1) = Some l"
    "newLocation rp google t2 0 = Some l0"
    "locationHistory s' = (if progress s1 = 0 then [l0] else [l, l0])"
    "targetLocation s' = Some l0"
    using start_props [OF s1(2,3) n, of google t2] by blast
  have "run rp google [Click t1, Click t2] s = Some s'"
    using s1(1) s'(1) by simp
  then show ?thesis
    using s'(2-8) s1(4) by auto
qed

text \<open>
  Claim C4, as amended. After a start command issued while Progress is 0, followed by
  \<open>k\<close> ticks, the history holds \<open>min k 1000 + 1\<close> samples: the one appended by the
  start itself and one for every tick that changed Progress (a tick at Progress 1
  appends nothing). Their timestamps are the clock values of the start and of those
  ticks, in that order, so they ascend when the clock does.
\<close>

theorem history_length_after_ticks:
  assumes "stable s" and "\<not> isConnected s" and "progress s = 0" and "2 \<le> length rp"
    and "sorted (now # ts)"
  shows "\<exists>s'. run rp google (Click now # map Frame ts) s = Some s'
    \<and> length (locationHistory s') = min (length ts) 1000 + 1
    \<and> map timestamp (locationHistory s') = now # take 1000 ts
    \<and> sorted (map timestamp (locationHistory s'))"
proof -
  obtain s' where s': "run rp google (Click now # map Frame ts) s = Some s'"
    "map timestamp (locationHistory s') = now # take 1000 ts"
    using start_then_frames [OF assms(1,2,4), of google now ts] assms(3) by auto
  have "length (map timestamp (locationHistory s')) = min (length ts) 1000 + 1"
    by (simp only: s'(2)) simp
  then have len: "length (locationHistory s') = min (length ts) 1000 + 1"
    by simp
  have "sorted (take 1001 (now # ts))"
    using assms(5) by (rule sorted_wrt_take)
  then have "sorted (now # take 1000 ts)"
    by simp
  then show ?thesis
    using s' len by simp
qed

theorem history_length_after_ticks_witness:
  "stable (init 0) \<and> \<not> isConnected (init 0) \<and> progress (init 0) = 0
    \<and> 2 \<le> length routePoints \<and> sorted [5, 16, 32 :: int]
    \<and> (\<exists>s'. run routePoints None (Click 5 # map Frame [16, 32]) (init 0) = Some s'
      \<and> length (locationHistory s') = 3
      \<and> map timestamp (locationHistory s') = [5, 16, 32]
      \<and> sorted (map timestamp (locationHistory s')))"
proof -
  have a: "stable (init 0)" by (simp add: stable_def init_def)
  have b: "\<not> isConnected (init 0)" by (simp add: init_def)
  have c: "progress (init 0) = 0" by (simp add: init_def)
  have n: "2 \<le> length routePoints" by (simp add: routePoints_def)
  have d: "sorted (5 # [16, 32 :: int])" by simp
  show ?thesis
    using a b c n d history_length_after_ticks [OF a b c n d, of None]
    by (simp add: numeral_3_eq_3)
qed

text \<open>
  The claim C4 as stated fails after one tick: the history of a fresh session then
  holds two samples, not one.
\<close>

theorem history_length_counterexample:
  "map_option (length \<circ> locationHistory)
     (run routePoints None [Click 0, Frame 16] (init 0)) = Some 2"
proof -
  have a: "stable (init 0)" by (simp add: stable_def init_def)
  have b: "\<not> isConnected (init 0)" by (simp add: init_def)
  have n: "2 \<le> length routePoints" by (simp add: routePoints_def)
  obtain s' where s': "run routePoints None (Click 0 # map Frame [16]) (init 0) = Some s'"
    "map timestamp (locationHistory s') =
        (if progress (init 0) = 0 then [0] else [0, 0]) @ take 1000 [16]"
    using start_then_frames [OF a b n, of None 0 "[16]"] by blast
  have "length (map timestamp (locationHistory s')) = 2"
    by (simp only: s'(2)) (simp add: init_def)
  then show ?thesis
    using s'(1) by simp
qed


text \<open>
  Claim C5, as amended. Stop followed by start resets Progress to exactly 0 and drops
  every sample of the prior session, whatever Progress that session had reached. The
  history is not left empty: it holds only samples that the start command built (at
  its own clock value), the last of them the sample at Progress 0.
\<close>

theorem stop_start_resets:
  assumes "stable s" and "isConnected s" and "2 \<le> length rp"
  shows "\<exists>s'. run rp google [Click t1, Click t2] s = Some s' \<and> isConnected s'
    \<and> progress s' = 0 \<and> locationHistory s' \<noteq> []
    \<and> (\<forall>l \<in> set (locationHistory s'). \<exists>p. newLocation rp google t2 p = Some l)
    \<and> newLocation rp google t2 0 = Some (last (locationHistory s'))"
proof -
  obtain s' l l0 where s': "run rp google [Click t1, Click t2] s = Some s'" "isConnected s'"
    "progress s' = 0" "newLocation rp google t2 (progress s) = Some l"
    "newLocation rp google t2 0 = Some l0"
    "locationHistory s' = (if progress s = 0 then [l0] else [l, l0])"
    using stop_start [OF assms, of google t1 t2] by blast
  have "locationHistory s' \<noteq> []" and "last (locationHistory s') = l0"
    using s'(6) by simp_all
  moreover have "\<forall>x \<in> set (locationHistory s'). \<exists>p. newLocation rp google t2 p = Some x"
    using s'(4,5,6) by (auto split: if_splits)
  ultimately show ?thesis
    using s'(1,2,3,5) by auto
qed

theorem stop_start_resets_witness:
  "stable \<lparr>isConnected = True, progress = 1,
      locationHistory = [\<lparr>lat = 0, lng = 0, timestamp = 7, accuracy = None, speed = Some 60,
                           heading = Some 0\<rparr>],
      targetLocation = None, animationRef = Some 1, frames = [(1, True)], nextHandle = 2\<rparr>
   \<and> isConnected \<lparr>isConnected = True, progress = 1,
      locationHistory = [\<lparr>lat = 0, lng = 0, timestamp = 7, accuracy = None, speed = Some 60,
                           heading = Some 0\<rparr>],
      targetLocation = None, animationRef = Some 1, frames = [(1, True)], nextHandle = 2\<rparr>
   \<and> 2 \<le> length routePoints
   \<and> (\<exists>s'. run routePoints None [Click 32, Click 48]
         \<lparr>isConnected = True, progress = 1,
          locationHistory = [\<lparr>lat = 0, lng = 0, timestamp = 7, accuracy = None,
                               speed = Some 60, heading = Some 0\<rparr>],
          targetLocation = None, animationRef = Some 1, frames = [(1, True)],
          nextHandle = 2\<rparr> = Some s'
       \<and> isConnected s' \<and> progress s' = 0 \<and> locationHistory s' \<noteq> []
       \<and> (\<forall>l \<in> set (locationHistory s'). \<exists>p. newLocation routePoints None 48 p = Some l)
       \<and> newLocation routePoints None 48 0 = Some (last (locationHistory s')))"
proof -
  let ?s = "\<lparr>isConnected = True, progress = 1,
      locationHistory = [\<lparr>lat = 0, lng = 0, timestamp = 7, accuracy = None, speed = Some 60,
                           heading = Some 0\<rparr>],
      targetLocation = None, animationRef = Some 1, frames = [(1, True)], nextHandle = 2\<rparr>"
  have a: "stable ?s" by (simp add: stable_def)
  have c: "isConnected ?s" by simp
  have n: "2 \<le> length routePoints" by (simp add: routePoints_def)
  show ?thesis
    using a c n stop_start_resets [OF a c n, of None 32 48] by blast
qed

text \<open>
  The claim C5 as stated fails: after start, one tick, stop and start, the history is
  not empty.
\<close>

theorem stop_start_history_counterexample:
  "map_option (length \<circ> locationHistory)
     (run routePoints None [Click 0, Frame 16, Click 32, Click 48] (init 0)) = Some 2"
proof -
  have a: "stable (init 0)" by (simp add: stable_def init_def)
  have b: "\<not> isConnected (init 0)" by (simp add: init_def)
  have n: "2 \<le> length routePoints" by (simp add: routePoints_def)
  obtain s2 where s2: "run routePoints None (Click 0 # map Frame [16]) (init 0) = Some s2"
    "stable s2" "isConnected s2" "progress s2 = real (min (length [16::int]) 1000) / 1000"
    using start_then_frames [OF a b n, of None 0 "[16]"] by blast
  have p: "progress s2 \<noteq> 0"
    using s2(4) by simp
  obtain s' l l0 where s': "run routePoints None [Click 32, Click 48] s2 = Some s'"
    "locationHistory s' = (if progress s2 = 0 then [l0] else [l, l0])"
    using stop_start [OF s2(2,3) n, of None 32 48] by blast
  have "run routePoints None ([Click 0, Frame 16] @ [Click 32, Click 48]) (init 0) = Some s'"
    using s2(1) s'(1) by (simp only: run_append list.map) simp
  moreover have "length (locationHistory s') = 2"
    using s'(2) p by simp
  ultimately show ?thesis by simp
qed

text \<open>
  Claim C10 at a restart. A session runs to Progress 1 (1000 ticks), is stopped and
  started again: the history then holds two samples, and the first of them lies on the
  last waypoint of the route, not on the first.
\<close>

theorem restart_emits_stale_sample:
  "map_option (map (\<lambda>l. (lat l, lng l)) \<circ> locationHistory)
     (run routePoints None
        ((Click 0 # map Frame (map int [1..<1001])) @ [Click 2000, Click 3000]) (init 0))
    = Some [(fl (173850 / 10000), fl (784867 / 10000)),
            (fl (184386 / 10000), fl (791288 / 10000))]"
proof -
  have a: "stable (init 0)" by (simp add: stable_def init_def)
  have b: "\<not> isConnected (init 0)" by (simp add: init_def)
  have n: "2 \<le> length routePoints" by (simp add: routePoints_def)
  obtain s2 where s2:
    "run routePoints None (Click 0 # map Frame (map int [1..<1001])) (init 0) = Some s2"
    "stable s2" "isConnected s2"
    "progress s2 = real (min (length (map int [1..<1001])) 1000) / 1000"
    using start_then_frames [OF a b n, of None 0 "map int [1..<1001]"] by blast
  have p: "progress s2 = 1"
    using s2(4) by simp
  obtain s' l l0 where s': "run routePoints None [Click 2000, Click 3000] s2 = Some s'"
    "newLocation routePoints None 3000 (progress s2) = Some l"
    "newLocation routePoints None 3000 0 = Some l0"
    "locationHistory s' = (if progress s2 = 0 then [l0] else [l, l0])"
    using stop_start [OF s2(2,3) n, of None 2000 3000] by blast
  have r: "run routePoints None
      ((Click 0 # map Frame (map int [1..<1001])) @ [Click 2000, Click 3000]) (init 0) = Some s'"
    using s2(1) s'(1) by (simp only: run_append) simp
  have h: "locationHistory s' = [l, l0]"
    using s'(4) p by simp
  have l1: "newLocation routePoints None 3000 1 = Some l"
    using s'(2) p by simp
  have l: "lat l = fl (173850 / 10000)" "lng l = fl (784867 / 10000)"
    using newLocation_last_shipped [OF l1] by simp_all
  have "routePoints ! 0 = \<lparr>lat = fl (184386 / 10000), lng = fl (791288 / 10000)\<rparr>"
    by (simp add: routePoints_def)
  then have l0: "lat l0 = fl (184386 / 10000)" "lng l0 = fl (791288 / 10000)"
    using newLocation_first [OF n doubles_routePoints s'(3)] by simp_all
  show ?thesis
    by (simp only: r) (simp add: h l l0)
qed

subsection \<open>Display history\<close>

lemma sliceLast_length: "length (sliceLast n xs) = min n (length xs)"
  by (simp add: sliceLast_def)

lemma locationUpdate_length:
  "length (locationHistoryD d) \<le> 201 \<Longrightarrow> length (locationHistoryD (locationUpdate x d)) \<le> 201"
  by (simp add: locationUpdate_def sliceLast_length)

lemma stepD_length:
  "length (locationHistoryD d) \<le> 201 \<Longrightarrow> length (locationHistoryD (stepD e d)) \<le> 201"
  by (cases e)
    (simp_all add: locationUpdate_length devicesList_def switchMode_def handleDeviceSelect_def
      Let_def split: option.splits)

lemma runD_length:
  "length (locationHistoryD d) \<le> 201 \<Longrightarrow> length (locationHistoryD (runD es d)) \<le> 201"
  unfolding runD_def by (induction es arbitrary: d) (simp_all add: stepD_length)

lemma sliceLast_snoc:
  "sliceLast 201 (sliceLast 200 h @ x # xs) = sliceLast 201 (h @ x # xs)"
proof -
  let ?k = "length h - 200"
  let ?ys = "x # xs"
  let ?m = "length h + length ?ys - 201 - ?k"
  have m: "length h + length ?ys - 201 = ?m + ?k"
    by simp
  have "sliceLast 201 (h @ ?ys) = drop (?m + ?k) (h @ ?ys)"
    by (simp only: sliceLast_def length_append m [symmetric])
  also have "\<dots> = drop ?m (drop ?k (h @ ?ys))"
    by (simp only: drop_drop)
  also have "drop ?k (h @ ?ys) = drop ?k h @ ?ys"
    by simp
  also have "drop ?m (drop ?k h @ ?ys) = sliceLast 201 (sliceLast 200 h @ ?ys)"
  proof -
    have "length (drop ?k h @ ?ys) - 201 = ?m"
      by (simp only: length_append length_drop)
    then show ?thesis
      by (simp only: sliceLast_def)
  qed
  finally show ?thesis by (rule sym)
qed

lemma runD_updates:
  assumes "deviceMode d = display" and "noDevice (selectedDevice d)"
    and "length (locationHistoryD d) \<le> 201"
  shows "locationHistoryD (runD (map LocationUpdate xs) d)
    = sliceLast 201 (locationHistoryD d @ xs)"
  using assms
proof (induction xs arbitrary: d)
  case Nil
  then show ?case by (simp add: runD_def sliceLast_def)
next
  case (Cons x xs)
  let ?d = "locationUpdate x d"
  have d: "deviceMode ?d = display" "noDevice (selectedDevice ?d)"
    "locationHistoryD ?d = sliceLast 200 (locationHistoryD d) @ [x]"
    using Cons.prems by (simp_all add: locationUpdate_def)
  have len: "length (locationHistoryD ?d) \<le> 201"
    using Cons.prems(3) by (rule locationUpdate_length)
  have "locationHistoryD (runD (map LocationUpdate (x # xs)) d)
      = locationHistoryD (runD (map LocationUpdate xs) ?d)"
    by (simp add: runD_def)
  also have "\<dots> = sliceLast 201 (locationHistoryD ?d @ xs)"
    using Cons.IH [OF d(1,2) len] .
  also have "\<dots> = sliceLast 201 (sliceLast 200 (locationHistoryD d) @ x # xs)"
    by (simp add: d(3))
  also have "\<dots> = sliceLast 201 (locationHistoryD d @ x # xs)"
    by (rule sliceLast_snoc)
  finally show ?case .
qed

text \<open>
  Claim C9. The display history never holds more than 201 samples, whatever messages
  and commands arrive; fed a stream of accepted samples, it is the 201 most recent
  ones (the 200 kept by \<open>slice(-200)\<close> and the new one).
\<close>

theorem display_history_bounded:
  "length (locationHistoryD (runD es (initD sid))) \<le> 201
   \<and> locationHistoryD (runD (map LocationUpdate xs) (initD sid)) = sliceLast 201 xs"
proof -
  have "length (locationHistoryD (runD es (initD sid))) \<le> 201"
    by (rule runD_length) (simp add: initD_def)
  moreover have "locationHistoryD (runD (map LocationUpdate xs) (initD sid)) = sliceLast 201 xs"
    using runD_updates [of "initD sid" xs] by (simp add: initD_def noDevice_def)
  ultimately show ?thesis by simp
qed

end
